theory Spec2Isabelle
  imports Complex_Main
begin

section \<open>JavaScript numbers\<close>

text \<open>
  Column widths, pointer coordinates and deltas are JavaScript numbers. The model keeps
  the special values of IEEE arithmetic that the plugin can produce (\<open>NaN\<close> from \<open>0 / 0\<close>
  or from adding \<open>undefined\<close>, the two infinities from a division by zero) and takes
  every finite number as an exact rational: the rounding of binary64, overflow and the
  sign of zero are outside the model (every zero is \<open>+0\<close>).
\<close>

datatype jsnum = Fin rat | PInf | NInf | NaN

fun js_add :: "jsnum \<Rightarrow> jsnum \<Rightarrow> jsnum" where
  "js_add (Fin a) (Fin b) = Fin (a + b)"
| "js_add NaN _ = NaN"
| "js_add _ NaN = NaN"
| "js_add PInf NInf = NaN"
| "js_add NInf PInf = NaN"
| "js_add PInf _ = PInf"
| "js_add _ PInf = PInf"
| "js_add NInf _ = NInf"
| "js_add _ NInf = NInf"

fun js_neg :: "jsnum \<Rightarrow> jsnum" where
  "js_neg (Fin a) = Fin (- a)"
| "js_neg PInf = NInf"
| "js_neg NInf = PInf"
| "js_neg NaN = NaN"

definition js_sub :: "jsnum \<Rightarrow> jsnum \<Rightarrow> jsnum" where
  "js_sub a b = js_add a (js_neg b)"

fun js_mul :: "jsnum \<Rightarrow> jsnum \<Rightarrow> jsnum" where
  "js_mul (Fin a) (Fin b) = Fin (a * b)"
| "js_mul NaN _ = NaN"
| "js_mul _ NaN = NaN"
| "js_mul PInf (Fin b) = (if b = 0 then NaN else if 0 < b then PInf else NInf)"
| "js_mul NInf (Fin b) = (if b = 0 then NaN else if 0 < b then NInf else PInf)"
| "js_mul (Fin a) PInf = (if a = 0 then NaN else if 0 < a then PInf else NInf)"
| "js_mul (Fin a) NInf = (if a = 0 then NaN else if 0 < a then NInf else PInf)"
| "js_mul PInf PInf = PInf"
| "js_mul NInf NInf = PInf"
| "js_mul PInf NInf = NInf"
| "js_mul NInf PInf = NInf"

fun js_div :: "jsnum \<Rightarrow> jsnum \<Rightarrow> jsnum" where
  "js_div (Fin a) (Fin b) =
     (if b = 0 then (if a = 0 then NaN else if 0 < a then PInf else NInf)
      else Fin (a / b))"
| "js_div NaN _ = NaN"
| "js_div _ NaN = NaN"
| "js_div (Fin a) PInf = Fin 0"
| "js_div (Fin a) NInf = Fin 0"
| "js_div PInf (Fin b) = (if 0 \<le> b then PInf else NInf)"
| "js_div NInf (Fin b) = (if 0 \<le> b then NInf else PInf)"
| "js_div PInf PInf = NaN"
| "js_div PInf NInf = NaN"
| "js_div NInf PInf = NaN"
| "js_div NInf NInf = NaN"

text \<open>\<open>Math.max(a, b)\<close>: \<open>NaN\<close> as soon as one argument is \<open>NaN\<close>.\<close>

fun js_max :: "jsnum \<Rightarrow> jsnum \<Rightarrow> jsnum" where
  "js_max (Fin a) (Fin b) = Fin (max a b)"
| "js_max NaN _ = NaN"
| "js_max _ NaN = NaN"
| "js_max PInf _ = PInf"
| "js_max _ PInf = PInf"
| "js_max NInf b = b"
| "js_max a NInf = a"

text \<open>The comparisons \<open>a < b\<close> and \<open>a >= b\<close>: both are false when an operand is \<open>NaN\<close>.\<close>

fun js_lt :: "jsnum \<Rightarrow> jsnum \<Rightarrow> bool" where
  "js_lt (Fin a) (Fin b) = (a < b)"
| "js_lt NaN _ = False"
| "js_lt _ NaN = False"
| "js_lt _ NInf = False"
| "js_lt PInf _ = False"
| "js_lt NInf _ = True"
| "js_lt _ PInf = True"

fun js_ge :: "jsnum \<Rightarrow> jsnum \<Rightarrow> bool" where
  "js_ge (Fin a) (Fin b) = (b \<le> a)"
| "js_ge NaN _ = False"
| "js_ge _ NaN = False"
| "js_ge _ NInf = True"
| "js_ge PInf _ = True"
| "js_ge NInf _ = False"
| "js_ge _ PInf = False"

text \<open>
  A value of type \<open>number | undefined\<close> is a \<open>jsnum option\<close>, \<open>None\<close> being
  \<open>undefined\<close>; in an addition \<open>undefined\<close> converts to \<open>NaN\<close>.
\<close>

fun toNumber :: "jsnum option \<Rightarrow> jsnum" where
  "toNumber None = NaN"
| "toNumber (Some a) = a"

text \<open>
  Modelled from the spec: \<open>sum\<close> of \<open>$lib/utils/math\<close> is not among the sources; the
  spec writes it as the sum \<open>\<Sigma> start[ij]\<close> of the listed numbers. It is taken as the
  left-to-right addition starting from \<open>0\<close>. The plugin passes it \<open>start[id]\<close> for every id
  of the group, also where that is \<open>undefined\<close>.
\<close>

definition sum_math :: "jsnum option list \<Rightarrow> jsnum" where
  "sum_math nums = foldl (\<lambda>a b. js_add a (toNumber b)) (Fin 0) nums"

section \<open>The column-resizing plugin\<close>

datatype HeaderCell =
    FlatHeaderCell (header_id: string)
  | GroupHeaderCell (header_id: string) (ids: "string list")

datatype error = TypeError

text \<open>
  An event carries whether its \<open>target\<close> is \<open>null\<close>; a mouse event has \<open>clientX\<close>, a touch
  event the \<open>pageX\<close> of each of its \<open>targetTouches\<close>.
\<close>

datatype Event =
    MouseEvent (target_null: bool) (clientX: jsnum)
  | TouchEvent (target_null: bool) (targetTouches: "jsnum list")
  | OtherEvent (target_null: bool)

text \<open>Reading \<open>targetTouches[0].pageX\<close> of an empty touch list throws.\<close>

fun getDragXPos :: "Event \<Rightarrow> error + jsnum" where
  "getDragXPos (MouseEvent _ x) = Inr x"
| "getDragXPos (TouchEvent _ []) = Inl TypeError"
| "getDragXPos (TouchEvent _ (pageX # _)) = Inr pageX"
| "getDragXPos (OtherEvent _) = Inr (Fin 0)"

text \<open>
  A \<open>Record<string, number>\<close> is a map from ids to numbers; a key that is absent and a key
  holding \<open>undefined\<close> both read as \<open>undefined\<close> (\<open>None\<close>), and the plugin never tells
  them apart.
\<close>

record ColumnsWidthState =
  current :: "string \<rightharpoonup> jsnum"
  start :: "string \<rightharpoonup> jsnum"

record Element =
  clientWidth :: jsnum

text \<open>
  The state one plugin instance closes over: the \<open>columnsWidthState\<close> store, the two
  bookkeeping records, and the listeners registered on \<open>window\<close>, each named by its event
  type and the id of the header cell whose handler it is.
\<close>

record ResizeState =
  columnsWidthState :: ColumnsWidthState
  dragStartXPosForId :: "string \<rightharpoonup> jsnum"
  nodeForId :: "string \<rightharpoonup> Element"
  listeners :: "(string \<times> string) set"

text \<open>\<open>columnWidths = keyed(columnsWidthState, 'current')\<close>: an update of the view
  replaces the \<open>current\<close> field and keeps the rest.\<close>

definition columnWidths_update ::
  "((string \<rightharpoonup> jsnum) \<Rightarrow> (string \<rightharpoonup> jsnum)) \<Rightarrow> ResizeState \<Rightarrow> ResizeState" where
  "columnWidths_update f st =
     st\<lparr>columnsWidthState := (columnsWidthState st)\<lparr>current := f (current (columnsWidthState st))\<rparr>\<rparr>"

text \<open>The callback \<open>dragStart\<close> hands to \<open>columnsWidthState.update\<close>.\<close>

fun dragStart_update :: "HeaderCell \<Rightarrow> ColumnsWidthState \<Rightarrow> ColumnsWidthState" where
  "dragStart_update (GroupHeaderCell cid gids) s =
     s\<lparr>start := foldl (\<lambda>st i. st(i := current s i)) (start s) gids\<rparr>"
| "dragStart_update (FlatHeaderCell cid) s =
     s\<lparr>start := (start s)(cid := current s cid)\<rparr>"

fun moveEndListeners :: "Event \<Rightarrow> string \<Rightarrow> (string \<times> string) set" where
  "moveEndListeners (MouseEvent _ _) cid = {(''mousemove'', cid), (''mouseup'', cid)}"
| "moveEndListeners _ cid = {(''touchmove'', cid), (''touchend'', cid)}"

definition dragStart :: "HeaderCell \<Rightarrow> Event \<Rightarrow> ResizeState \<Rightarrow> error + ResizeState" where
  "dragStart cell event st =
     (if target_null event then Inr st
      else case getDragXPos event of
        Inl e \<Rightarrow> Inl e
      | Inr x \<Rightarrow>
          Inr (st\<lparr>dragStartXPosForId := (dragStartXPosForId st)(header_id cell \<mapsto> x),
                  columnsWidthState := dragStart_update cell (columnsWidthState st),
                  listeners := listeners st \<union> moveEndListeners event (header_id cell)\<rparr>))"

text \<open>The second argument of \<open>Math.max\<close> in the group branch of \<open>dragMove\<close>.\<close>

definition groupWidth :: "jsnum \<Rightarrow> jsnum \<Rightarrow> jsnum \<Rightarrow> jsnum" where
  "groupWidth totalStartWidth deltaWidth startWidth =
     js_add startWidth (js_mul deltaWidth (js_div startWidth totalStartWidth))"

text \<open>The callback \<open>dragMove\<close> hands to \<open>columnsWidthState.update\<close>, for a given
  \<open>deltaWidth\<close>.\<close>

fun dragMove_update :: "HeaderCell \<Rightarrow> jsnum \<Rightarrow> ColumnsWidthState \<Rightarrow> ColumnsWidthState" where
  "dragMove_update (GroupHeaderCell cid gids) deltaWidth s =
     (let totalStartWidth = sum_math (map (start s) gids)
      in s\<lparr>current :=
           foldl (\<lambda>cur i.
                    case start s i of
                      None \<Rightarrow> cur
                    | Some startWidth \<Rightarrow>
                        cur(i \<mapsto> js_max (Fin 0) (groupWidth totalStartWidth deltaWidth startWidth)))
                 (current s) gids\<rparr>)"
| "dragMove_update (FlatHeaderCell cid) deltaWidth s =
     (case start s cid of
        None \<Rightarrow> s
      | Some startWidth \<Rightarrow>
          s\<lparr>current := (current s)(cid \<mapsto> js_max (Fin 0) (js_add startWidth deltaWidth))\<rparr>)"

definition dragMove :: "HeaderCell \<Rightarrow> Event \<Rightarrow> ResizeState \<Rightarrow> error + ResizeState" where
  "dragMove cell event st =
     (case getDragXPos event of
        Inl e \<Rightarrow> Inl e
      | Inr x \<Rightarrow>
          (let deltaWidth = js_sub x (toNumber (dragStartXPosForId st (header_id cell)))
           in Inr (st\<lparr>columnsWidthState :=
                        dragMove_update cell deltaWidth (columnsWidthState st)\<rparr>)))"

text \<open>One id of \<open>dragEnd\<close>: the width of its node, when it has one.\<close>

definition resync :: "string \<Rightarrow> ResizeState \<Rightarrow> ResizeState" where
  "resync i st =
     (case nodeForId st i of
        None \<Rightarrow> st
      | Some node \<Rightarrow> columnWidths_update (\<lambda>ws. ws(i \<mapsto> clientWidth node)) st)"

fun dragEnd_widths :: "HeaderCell \<Rightarrow> ResizeState \<Rightarrow> ResizeState" where
  "dragEnd_widths (GroupHeaderCell cid gids) st = foldl (\<lambda>s i. resync i s) st gids"
| "dragEnd_widths (FlatHeaderCell cid) st = resync cid st"

definition dragEnd :: "HeaderCell \<Rightarrow> Event \<Rightarrow> ResizeState \<Rightarrow> ResizeState" where
  "dragEnd cell event st =
     (let st' = dragEnd_widths cell st
      in st'\<lparr>listeners := listeners st' - moveEndListeners event (header_id cell)\<rparr>)"

text \<open>The mount action of a header cell, and the \<open>destroy\<close> it returns.\<close>

fun action :: "HeaderCell \<Rightarrow> Element \<Rightarrow> ResizeState \<Rightarrow> ResizeState" where
  "action (FlatHeaderCell cid) node st =
     columnWidths_update (\<lambda>ws. ws(cid \<mapsto> clientWidth node))
       (st\<lparr>nodeForId := (nodeForId st)(cid \<mapsto> node)\<rparr>)"
| "action (GroupHeaderCell cid gids) node st =
     st\<lparr>nodeForId := (nodeForId st)(cid \<mapsto> node)\<rparr>"

definition destroy :: "HeaderCell \<Rightarrow> ResizeState \<Rightarrow> ResizeState" where
  "destroy cell st = st\<lparr>nodeForId := (nodeForId st)(header_id cell := None)\<rparr>"

section \<open>The filtering plugin\<close>

text \<open>
  A body cell is a \<open>DataBodyCell\<close>, which bears a value, or another kind of cell (a display
  cell), which does not. Of a cell the filter reads its column id, its value and the
  composite key \<open>rowColId()\<close>; that method is defined in \<open>$lib/bodyCells\<close>, outside the
  sources, so the key a cell answers with is taken as a component of the cell.
\<close>

datatype 'v BodyCell =
    DataBodyCell (cell_id: string) (rowColId: string) (cell_value: 'v)
  | DisplayBodyCell (cell_id: string) (rowColId: string)

text \<open>
  A row: \<open>cellForId\<close> in the enumeration order of \<open>Object.values\<close>, the visible \<open>cells\<close>,
  and \<open>subRows\<close>, which is \<open>undefined\<close> (\<open>None\<close>) or a list of rows.
\<close>

datatype 'v BodyRow =
  BodyRow (row_id: string)
          (cellForId: "(string \<times> 'v BodyCell) list")
          (cells: "'v BodyCell list")
          (subRows: "'v BodyRow list option")

record 'v TableFilterColumnOptions =
  exclude :: "bool option"
  getFilterValue :: "('v \<Rightarrow> 'v) option"

record TableFilterFnProps =
  filterValue :: string
  cellValue :: string

type_synonym TableFilterFn = "TableFilterFnProps \<Rightarrow> bool"

type_synonym CellMatches = "string \<rightharpoonup> bool"

text \<open>
  \<open>toLowerCase\<close> and \<open>startsWith\<close> on strings of 8-bit characters: the letters \<open>A\<close> to
  \<open>Z\<close> are lowered, every other character is kept.
\<close>

definition toLowerCase :: "string \<Rightarrow> string" where
  "toLowerCase s =
     map (\<lambda>c. case map_of (zip ''ABCDEFGHIJKLMNOPQRSTUVWXYZ'' ''abcdefghijklmnopqrstuvwxyz'') c of
                 None \<Rightarrow> c
               | Some l \<Rightarrow> l) s"

definition startsWith :: "string \<Rightarrow> string \<Rightarrow> bool" where
  "startsWith s p = (take (length p) s = p)"

definition textPrefixFilter :: TableFilterFn where
  "textPrefixFilter props =
     (if filterValue props = [] then True
      else startsWith (toLowerCase (cellValue props)) (toLowerCase (filterValue props)))"

text \<open>
  Modelled from the spec: \<open>getCloned\<close> of \<open>$lib/utils/clone\<close> is not among the sources;
  the spec has it produce a clone whose \<open>subRows\<close> is the filtered result, all other row
  fields preserved unchanged.
\<close>

definition getCloned :: "'v BodyRow \<Rightarrow> 'v BodyRow list \<Rightarrow> 'v BodyRow" where
  "getCloned row newSubRows = BodyRow (row_id row) (cellForId row) (cells row) (Some newSubRows)"

text \<open>
  The functions below take the configuration first: \<open>String\<close>, the conversion of a cell
  value to text (a parameter, the values being of any type), then \<open>filterValue\<close>,
  \<open>columnOptions\<close>, \<open>fn\<close> and \<open>includeHiddenColumns\<close>. The store \<open>tableCellMatches\<close> is
  passed in and returned.

  \<open>cellMatch\<close> is the callback mapped over \<open>Object.values(row.cellForId)\<close>.
\<close>

definition cellMatch ::
  "('v \<Rightarrow> string) \<Rightarrow> string \<Rightarrow> (string \<rightharpoonup> 'v TableFilterColumnOptions) \<Rightarrow> TableFilterFn \<Rightarrow> bool \<Rightarrow>
   'v BodyRow \<Rightarrow> 'v BodyCell \<Rightarrow> CellMatches \<Rightarrow> bool \<times> CellMatches" where
  "cellMatch String fv columnOptions fn includeHiddenColumns row cell m =
     (let options = columnOptions (cell_id cell) in
      if (case options of None \<Rightarrow> False | Some opts \<Rightarrow> exclude opts = Some True) then (False, m)
      else
        let isHidden = (find (\<lambda>c. cell_id c = cell_id cell) (cells row) = None) in
        if isHidden \<and> \<not> includeHiddenColumns then (False, m)
        else
          case cell of
            DisplayBodyCell _ _ \<Rightarrow> (False, m)
          | DataBodyCell _ _ v \<Rightarrow>
              let v' = (case options of
                          None \<Rightarrow> v
                        | Some opts \<Rightarrow> (case getFilterValue opts of None \<Rightarrow> v | Some g \<Rightarrow> g v));
                  matches = fn \<lparr>filterValue = fv, cellValue = String v'\<rparr>
              in (matches, m(rowColId cell \<mapsto> matches)))"

fun rowCellMatches ::
  "('v \<Rightarrow> string) \<Rightarrow> string \<Rightarrow> (string \<rightharpoonup> 'v TableFilterColumnOptions) \<Rightarrow> TableFilterFn \<Rightarrow> bool \<Rightarrow>
   'v BodyRow \<Rightarrow> 'v BodyCell list \<Rightarrow> CellMatches \<Rightarrow> bool list \<times> CellMatches" where
  "rowCellMatches String fv co fn inc row [] m = ([], m)"
| "rowCellMatches String fv co fn inc row (cell # rest) m =
     (let (b, m1) = cellMatch String fv co fn inc row cell m;
          (bs, m2) = rowCellMatches String fv co fn inc row rest m1
      in (b # bs, m2))"

text \<open>The callback of \<open>.filter\<close>.\<close>

definition filterRow ::
  "('v \<Rightarrow> string) \<Rightarrow> string \<Rightarrow> (string \<rightharpoonup> 'v TableFilterColumnOptions) \<Rightarrow> TableFilterFn \<Rightarrow> bool \<Rightarrow>
   'v BodyRow \<Rightarrow> CellMatches \<Rightarrow> bool \<times> CellMatches" where
  "filterRow String fv co fn inc row m =
     (if (case subRows row of None \<Rightarrow> 0 | Some rs \<Rightarrow> length rs) \<noteq> 0 then (True, m)
      else
        let (bs, m') = rowCellMatches String fv co fn inc row (map snd (cellForId row)) m
        in (True \<in> set bs, m'))"

fun filterRows ::
  "('v \<Rightarrow> string) \<Rightarrow> string \<Rightarrow> (string \<rightharpoonup> 'v TableFilterColumnOptions) \<Rightarrow> TableFilterFn \<Rightarrow> bool \<Rightarrow>
   'v BodyRow list \<Rightarrow> CellMatches \<Rightarrow> 'v BodyRow list \<times> CellMatches" where
  "filterRows String fv co fn inc [] m = ([], m)"
| "filterRows String fv co fn inc (row # rest) m =
     (let (keep, m1) = filterRow String fv co fn inc row m;
          (kept, m2) = filterRows String fv co fn inc rest m1
      in (if keep then row # kept else kept, m2))"

text \<open>
  \<open>getFilteredRows\<close>: \<open>.map\<close> runs over all the rows first (\<open>mapRows\<close>, its callback being
  \<open>mapRow\<close>, which recurses into the sub-rows), then \<open>.filter\<close> over the mapped rows.
\<close>

fun getFilteredRows ::
  "('v \<Rightarrow> string) \<Rightarrow> string \<Rightarrow> (string \<rightharpoonup> 'v TableFilterColumnOptions) \<Rightarrow> TableFilterFn \<Rightarrow> bool \<Rightarrow>
   'v BodyRow list \<Rightarrow> CellMatches \<Rightarrow> 'v BodyRow list \<times> CellMatches"
and mapRows ::
  "('v \<Rightarrow> string) \<Rightarrow> string \<Rightarrow> (string \<rightharpoonup> 'v TableFilterColumnOptions) \<Rightarrow> TableFilterFn \<Rightarrow> bool \<Rightarrow>
   'v BodyRow list \<Rightarrow> CellMatches \<Rightarrow> 'v BodyRow list \<times> CellMatches"
and mapRow ::
  "('v \<Rightarrow> string) \<Rightarrow> string \<Rightarrow> (string \<rightharpoonup> 'v TableFilterColumnOptions) \<Rightarrow> TableFilterFn \<Rightarrow> bool \<Rightarrow>
   'v BodyRow \<Rightarrow> CellMatches \<Rightarrow> 'v BodyRow \<times> CellMatches" where
  "getFilteredRows String fv co fn inc rows m =
     (let (mapped, m1) = mapRows String fv co fn inc rows m
      in filterRows String fv co fn inc mapped m1)"
| "mapRows String fv co fn inc [] m = ([], m)"
| "mapRows String fv co fn inc (row # rest) m =
     (let (row', m1) = mapRow String fv co fn inc row m;
          (rest', m2) = mapRows String fv co fn inc rest m1
      in (row' # rest', m2))"
| "mapRow String fv co fn inc (BodyRow rid cfi cs None) m = (BodyRow rid cfi cs None, m)"
| "mapRow String fv co fn inc (BodyRow rid cfi cs (Some srs)) m =
     (let (filteredSubRows, m1) = getFilteredRows String fv co fn inc srs m
      in (getCloned (BodyRow rid cfi cs (Some srs)) filteredSubRows, m1))"

text \<open>
  The plugin of \<open>useTableFilter\<close>: its stores, \<open>deriveRows\<close>, and the \<open>matches\<close> prop of
  the \<open>tbody.tr.td\<close> hook.
\<close>

record 'v FilterPluginState =
  filterValue_store :: string
  preFilteredRows :: "'v BodyRow list"
  filteredRows :: "'v BodyRow list"
  tableCellMatches :: CellMatches

definition deriveRows ::
  "('v \<Rightarrow> string) \<Rightarrow> (string \<rightharpoonup> 'v TableFilterColumnOptions) \<Rightarrow> TableFilterFn \<Rightarrow> bool \<Rightarrow>
   'v BodyRow list \<Rightarrow> 'v FilterPluginState \<Rightarrow> 'v FilterPluginState" where
  "deriveRows String co fn inc rows st =
     (let (filtered, m) = getFilteredRows String (filterValue_store st) co fn inc rows Map.empty
      in st\<lparr>preFilteredRows := rows, tableCellMatches := m, filteredRows := filtered\<rparr>)"

definition matches_prop :: "string \<Rightarrow> CellMatches \<Rightarrow> 'v BodyCell \<Rightarrow> bool" where
  "matches_prop fv m cell =
     (fv \<noteq> [] \<and> (case m (rowColId cell) of None \<Rightarrow> False | Some b \<Rightarrow> b))"

section \<open>Notions the properties are stated with\<close>

text \<open>
  The rows below a row, at any depth, and the rows of a list together with all the rows
  below them.
\<close>

fun descendants :: "'v BodyRow \<Rightarrow> 'v BodyRow list" where
  "descendants (BodyRow rid cfi cs None) = []"
| "descendants (BodyRow rid cfi cs (Some srs)) = concat (map (\<lambda>r. r # descendants r) srs)"

definition allRows :: "'v BodyRow list \<Rightarrow> 'v BodyRow list" where
  "allRows rows = concat (map (\<lambda>r. r # descendants r) rows)"

text \<open>
  A cell is evaluable when none of the three guards of \<open>cellMatch\<close> turns it down: its
  column is not excluded, it is visible or hidden columns are included, and it is a
  \<open>DataBodyCell\<close>.
\<close>

definition evaluable ::
  "(string \<rightharpoonup> 'v TableFilterColumnOptions) \<Rightarrow> bool \<Rightarrow> 'v BodyRow \<Rightarrow> 'v BodyCell \<Rightarrow> bool" where
  "evaluable co inc row cell =
     ((case co (cell_id cell) of None \<Rightarrow> True | Some opts \<Rightarrow> exclude opts \<noteq> Some True)
      \<and> (find (\<lambda>c. cell_id c = cell_id cell) (cells row) \<noteq> None \<or> inc)
      \<and> (case cell of DataBodyCell _ _ _ \<Rightarrow> True | DisplayBodyCell _ _ \<Rightarrow> False))"

text \<open>The outcome \<open>cellMatch\<close> returns for a cell, and whether a cell is hidden in its row.\<close>

definition cellMatches ::
  "('v \<Rightarrow> string) \<Rightarrow> string \<Rightarrow> (string \<rightharpoonup> 'v TableFilterColumnOptions) \<Rightarrow> TableFilterFn \<Rightarrow> bool \<Rightarrow>
   'v BodyRow \<Rightarrow> 'v BodyCell \<Rightarrow> bool" where
  "cellMatches String fv co fn inc row cell =
     fst (cellMatch String fv co fn inc row cell Map.empty)"

definition isHidden :: "'v BodyRow \<Rightarrow> 'v BodyCell \<Rightarrow> bool" where
  "isHidden row cell = (find (\<lambda>c. cell_id c = cell_id cell) (cells row) = None)"

text \<open>
  The own-cell rule: \<open>rowCellMatches.includes(true)\<close> for the cells of the row.
\<close>

definition ownMatch ::
  "('v \<Rightarrow> string) \<Rightarrow> string \<Rightarrow> (string \<rightharpoonup> 'v TableFilterColumnOptions) \<Rightarrow> TableFilterFn \<Rightarrow> bool \<Rightarrow>
   'v BodyRow \<Rightarrow> bool" where
  "ownMatch String fv co fn inc row =
     (True \<in> set (fst (rowCellMatches String fv co fn inc row (map snd (cellForId row)) Map.empty)))"

text \<open>
  What \<open>.map\<close> makes of a row (the row itself, or its clone with the filtered sub-rows),
  and whether that has no sub-row left: \<open>subRows\<close> is \<open>undefined\<close> or the filter has
  emptied it.
\<close>

definition mappedRow ::
  "('v \<Rightarrow> string) \<Rightarrow> string \<Rightarrow> (string \<rightharpoonup> 'v TableFilterColumnOptions) \<Rightarrow> TableFilterFn \<Rightarrow> bool \<Rightarrow>
   'v BodyRow \<Rightarrow> 'v BodyRow" where
  "mappedRow String fv co fn inc row = fst (mapRow String fv co fn inc row Map.empty)"

definition noSubRowsLeft ::
  "('v \<Rightarrow> string) \<Rightarrow> string \<Rightarrow> (string \<rightharpoonup> 'v TableFilterColumnOptions) \<Rightarrow> TableFilterFn \<Rightarrow> bool \<Rightarrow>
   'v BodyRow \<Rightarrow> bool" where
  "noSubRowsLeft String fv co fn inc row =
     (case subRows (mappedRow String fv co fn inc row) of None \<Rightarrow> True | Some rs \<Rightarrow> rs = [])"

section \<open>Example tables\<close>

text \<open>
  Rows of a table with a text column \<open>name\<close> and, for some rows, a second column
  \<open>code\<close> that is not among the visible cells. Cell values are strings, so \<open>String\<close> is
  the identity.
\<close>

definition nameCell :: "string \<Rightarrow> string \<Rightarrow> string BodyCell" where
  "nameCell rid text = DataBodyCell ''name'' (rid @ '':name'') text"

definition codeCell :: "string \<Rightarrow> string \<Rightarrow> string BodyCell" where
  "codeCell rid text = DataBodyCell ''code'' (rid @ '':code'') text"

definition leafRow :: "string \<Rightarrow> string \<Rightarrow> string BodyRow" where
  "leafRow rid text = BodyRow rid [(''name'', nameCell rid text)] [nameCell rid text] None"

definition alice :: "string BodyRow" where
  "alice = leafRow ''0'' ''Alice''"

definition bob :: "string BodyRow" where
  "bob = leafRow ''1'' ''Bob''"

definition alan :: "string BodyRow" where
  "alan = leafRow ''2'' ''Alan''"

text \<open>A parent named \<open>Group\<close> over Alice and Bob, and a parent named \<open>Alan\<close> over Bob.\<close>

definition groupRow :: "string BodyRow" where
  "groupRow = BodyRow ''g'' [(''name'', nameCell ''g'' ''Group'')] [nameCell ''g'' ''Group'']
                (Some [alice, bob])"

definition alanOverBob :: "string BodyRow" where
  "alanOverBob = BodyRow ''a'' [(''name'', nameCell ''a'' ''Alan'')] [nameCell ''a'' ''Alan'']
                   (Some [bob])"

text \<open>
  A leaf whose visible name is \<open>Bob\<close> and whose hidden code is \<open>alpha\<close>, and a parent
  with the same two cells over Alice.
\<close>

definition hiddenCodeRow :: "string BodyRow" where
  "hiddenCodeRow = BodyRow ''h'' [(''name'', nameCell ''h'' ''Bob''), (''code'', codeCell ''h'' ''alpha'')]
                     [nameCell ''h'' ''Bob''] None"

definition hiddenCodeParent :: "string BodyRow" where
  "hiddenCodeParent = BodyRow ''h'' [(''name'', nameCell ''h'' ''Bob''), (''code'', codeCell ''h'' ''alpha'')]
                        [nameCell ''h'' ''Bob''] (Some [alice])"

text \<open>
  A leaf whose \<open>name\<close> column is hidden and whose only visible cell is a display cell
  \<open>actions\<close>.
\<close>

definition actionsOnlyRow :: "string BodyRow" where
  "actionsOnlyRow = BodyRow ''0'' [(''name'', nameCell ''0'' ''Alice''),
                                   (''actions'', DisplayBodyCell ''actions'' ''0:actions'')]
                      [DisplayBodyCell ''actions'' ''0:actions''] None"

definition noOptions :: "string \<rightharpoonup> string TableFilterColumnOptions" where
  "noOptions = Map.empty"

definition filterState :: "string \<Rightarrow> string FilterPluginState" where
  "filterState fv = \<lparr>filterValue_store = fv, preFilteredRows = [], filteredRows = [],
                     tableCellMatches = Map.empty\<rparr>"


definition zeroWidths :: ResizeState where
  "zeroWidths = \<lparr>columnsWidthState = \<lparr>current = [''a'' \<mapsto> Fin 0, ''b'' \<mapsto> Fin 0], start = Map.empty\<rparr>,
                 dragStartXPosForId = Map.empty, nodeForId = Map.empty, listeners = {}\<rparr>"

definition draggedGroup :: ResizeState where
  "draggedGroup = \<lparr>columnsWidthState = \<lparr>current = [''a'' \<mapsto> Fin (221 / 2), ''b'' \<mapsto> Fin 221],
                                          start = [''a'' \<mapsto> Fin 100, ''b'' \<mapsto> Fin 200]\<rparr>,
                   dragStartXPosForId = [''g'' \<mapsto> Fin 10],
                   nodeForId = [''a'' \<mapsto> \<lparr>clientWidth = Fin 110\<rparr>],
                   listeners = {(''mousemove'', ''g''), (''mouseup'', ''g'')}\<rparr>"

section \<open>Properties of the column-resizing plugin\<close>

subsection \<open>Arithmetic\<close>

lemma js_max_zero_not_negative: "\<not> js_lt (js_max (Fin 0) x) (Fin 0)"
  by (cases x) simp_all

lemma js_max_zero_ge_or_NaN: "js_max (Fin 0) x = NaN \<or> js_ge (js_max (Fin 0) x) (Fin 0)"
  by (cases x) simp_all






subsection \<open>Drag-move\<close>

lemma foldl_write_lookup:
  "foldl (\<lambda>cur i. case g i of None \<Rightarrow> cur | Some w \<Rightarrow> cur(i \<mapsto> h w)) c xs j =
     (if j \<in> set xs then (case g j of None \<Rightarrow> c j | Some w \<Rightarrow> Some (h w)) else c j)"
  by (induction xs arbitrary: c) (auto split: option.splits)

lemma dragMove_group_current:
  "current (dragMove_update (GroupHeaderCell cid gids) d s) j =
     (if j \<in> set gids
      then (case start s j of
              None \<Rightarrow> current s j
            | Some w \<Rightarrow> Some (js_max (Fin 0) (groupWidth (sum_math (map (start s) gids)) d w)))
      else current s j)"
  by (simp add: Let_def foldl_write_lookup)

lemma dragMove_flat_current:
  "current (dragMove_update (FlatHeaderCell cid) d s) j =
     (if j = cid
      then (case start s j of
              None \<Rightarrow> current s j
            | Some w \<Rightarrow> Some (js_max (Fin 0) (js_add w d)))
      else current s j)"
  by (simp split: option.splits)

text \<open>The delta of a drag-move is the position of the event less the position recorded at
  drag-start.\<close>

lemma dragMove_delta:
  "getDragXPos event = Inr x \<Longrightarrow> dragStartXPosForId st (header_id cell) = Some x0 \<Longrightarrow>
   dragMove cell event st =
     Inr (st\<lparr>columnsWidthState := dragMove_update cell (js_sub x x0) (columnsWidthState st)\<rparr>)"
  by (simp add: dragMove_def)

text \<open>
  Whatever a drag-move writes is the result of \<open>Math.max(0, \<dots>)\<close>, which is never less
  than zero; it is at least zero unless it is \<open>NaN\<close>.
\<close>

lemma dragMove_written_not_negative:
  "current (dragMove_update cell d s) j = Some v \<Longrightarrow> current s j \<noteq> Some v \<Longrightarrow>
   \<not> js_lt v (Fin 0) \<and> (v = NaN \<or> js_ge v (Fin 0))"
proof (cases cell)
  case (FlatHeaderCell cid)
  assume "current (dragMove_update cell d s) j = Some v" and "current s j \<noteq> Some v"
  with FlatHeaderCell obtain x where "v = js_max (Fin 0) x"
    by (auto simp only: dragMove_flat_current split: if_splits option.splits)
  then show ?thesis
    using js_max_zero_not_negative [of x] js_max_zero_ge_or_NaN [of x] by simp
next
  case (GroupHeaderCell cid gids)
  assume "current (dragMove_update cell d s) j = Some v" and "current s j \<noteq> Some v"
  with GroupHeaderCell obtain x where "v = js_max (Fin 0) x"
    by (auto simp only: dragMove_group_current split: if_splits option.splits)
  then show ?thesis
    using js_max_zero_not_negative [of x] js_max_zero_ge_or_NaN [of x] by simp
qed





text \<open>
  C6. The claim that every width a drag-move computes is at least zero fails where the
  start widths of a group add up to zero: \<open>0 / 0\<close> is \<open>NaN\<close>, and \<open>Math.max(0, NaN)\<close> is
  \<open>NaN\<close>, which is not at least zero. Here a group over two columns of width 0 is dragged
  from position 10 to position 15.
\<close>

theorem dragMove_zero_total_NaN:
  "(case dragStart (GroupHeaderCell ''g'' [''a'', ''b'']) (MouseEvent False (Fin 10)) zeroWidths of
      Inl e \<Rightarrow> None
    | Inr st1 \<Rightarrow>
        (case dragMove (GroupHeaderCell ''g'' [''a'', ''b'']) (MouseEvent False (Fin 15)) st1 of
           Inl e \<Rightarrow> None
         | Inr st2 \<Rightarrow> current (columnsWidthState st2) ''a'')) = Some NaN
   \<and> \<not> js_ge NaN (Fin 0)"
  by (simp add: dragStart_def dragMove_def zeroWidths_def js_sub_def sum_math_def groupWidth_def
        Let_def)

subsection \<open>Drag-end\<close>

lemma resync_nodeForId: "nodeForId (resync i st) = nodeForId st"
  by (simp add: resync_def columnWidths_update_def split: option.splits)

lemma resync_current:
  "current (columnsWidthState (resync i st)) j =
     (if j = i then (case nodeForId st i of
                       None \<Rightarrow> current (columnsWidthState st) j
                     | Some node \<Rightarrow> Some (clientWidth node))
      else current (columnsWidthState st) j)"
  by (simp add: resync_def columnWidths_update_def split: option.splits)

lemma resync_fold_current:
  "current (columnsWidthState (foldl (\<lambda>s i. resync i s) st xs)) j =
     (if j \<in> set xs then (case nodeForId st j of
                       None \<Rightarrow> current (columnsWidthState st) j
                     | Some node \<Rightarrow> Some (clientWidth node))
      else current (columnsWidthState st) j)"
proof (induction xs arbitrary: st)
  case Nil
  show ?case by simp
next
  case (Cons x xs)
  show ?case
    by (simp add: Cons.IH resync_nodeForId resync_current split: option.splits)
qed

lemma dragEnd_flat_current:
  "current (columnsWidthState (dragEnd (FlatHeaderCell cid) event st)) j =
     (if j = cid then (case nodeForId st j of
                       None \<Rightarrow> current (columnsWidthState st) j
                     | Some node \<Rightarrow> Some (clientWidth node))
      else current (columnsWidthState st) j)"
  by (simp add: dragEnd_def Let_def resync_current)

lemma dragEnd_group_current:
  "current (columnsWidthState (dragEnd (GroupHeaderCell cid gids) event st)) j =
     (if j \<in> set gids then (case nodeForId st j of
                       None \<Rightarrow> current (columnsWidthState st) j
                     | Some node \<Rightarrow> Some (clientWidth node))
      else current (columnsWidthState st) j)"
  by (simp add: dragEnd_def Let_def resync_fold_current)

text \<open>
  C7. After drag-end, the current width of an affected id (the id of a flat header, each
  id of a group header) that has a node is the rendered width of that node, whatever the
  drag-moves had left there; an id without a node keeps its width.
\<close>

theorem dragEnd_resync:
  "(nodeForId st cid = Some node \<longrightarrow>
      current (columnsWidthState (dragEnd (FlatHeaderCell cid) event st)) cid = Some (clientWidth node))
   \<and> (i \<in> set gids \<and> nodeForId st i = Some node \<longrightarrow>
      current (columnsWidthState (dragEnd (GroupHeaderCell gid gids) event st)) i
        = Some (clientWidth node))
   \<and> (nodeForId st j = None \<longrightarrow>
      current (columnsWidthState (dragEnd cell event st)) j = current (columnsWidthState st) j)"
proof (intro conjI impI)
  assume "nodeForId st cid = Some node"
  then show "current (columnsWidthState (dragEnd (FlatHeaderCell cid) event st)) cid
      = Some (clientWidth node)"
    by (simp add: dragEnd_flat_current)
next
  assume "i \<in> set gids \<and> nodeForId st i = Some node"
  then show "current (columnsWidthState (dragEnd (GroupHeaderCell gid gids) event st)) i
      = Some (clientWidth node)"
    by (simp add: dragEnd_group_current)
next
  assume "nodeForId st j = None"
  then show "current (columnsWidthState (dragEnd cell event st)) j = current (columnsWidthState st) j"
    by (cases cell) (auto simp: dragEnd_flat_current dragEnd_group_current)
qed

theorem dragEnd_resync_witness:
  "nodeForId draggedGroup ''a'' = Some \<lparr>clientWidth = Fin 110\<rparr>
   \<and> current (columnsWidthState draggedGroup) ''a'' = Some (Fin (221 / 2))
   \<and> current (columnsWidthState (dragEnd (FlatHeaderCell ''a'') (MouseEvent False (Fin 41)) draggedGroup)) ''a''
       = Some (Fin 110)
   \<and> current (columnsWidthState
        (dragEnd (GroupHeaderCell ''g'' [''a'', ''b'']) (MouseEvent False (Fin 41)) draggedGroup)) ''a''
       = Some (Fin 110)
   \<and> nodeForId draggedGroup ''b'' = None
   \<and> current (columnsWidthState
        (dragEnd (GroupHeaderCell ''g'' [''a'', ''b'']) (MouseEvent False (Fin 41)) draggedGroup)) ''b''
       = Some (Fin 221)"
proof -
  have n: "nodeForId draggedGroup ''a'' = Some \<lparr>clientWidth = Fin 110\<rparr>"
    and b: "nodeForId draggedGroup ''b'' = None"
    and ca: "current (columnsWidthState draggedGroup) ''a'' = Some (Fin (221 / 2))"
    and cb: "current (columnsWidthState draggedGroup) ''b'' = Some (Fin 221)"
    by (simp_all add: draggedGroup_def)
  from dragEnd_resync
    [where st = draggedGroup and cid = "''a''" and node = "\<lparr>clientWidth = Fin 110\<rparr>"
       and event = "MouseEvent False (Fin 41)" and i = "''a''" and gids = "[''a'', ''b'']"
       and gid = "''g''" and j = "''b''" and cell = "GroupHeaderCell ''g'' [''a'', ''b'']"]
    n b ca cb
  show ?thesis by simp
qed

section \<open>Properties of the filtering plugin\<close>

text \<open>
  The example of the specification: of the rows Alice, Bob and Alan, the filter value
  \<open>al\<close> keeps Alice and Alan, whose \<open>name\<close> cells are recorded as matching.
\<close>

lemma filter_al_example:
  "getFilteredRows (\<lambda>v. v) ''al'' noOptions textPrefixFilter False [alice, bob, alan] Map.empty
     = ([alice, alan], [''0:name'' \<mapsto> True, ''1:name'' \<mapsto> False, ''2:name'' \<mapsto> True])"
  by (simp add: alice_def bob_def alan_def leafRow_def nameCell_def noOptions_def cellMatch_def
        filterRow_def textPrefixFilter_def startsWith_def toLowerCase_def Let_def)

subsection \<open>The rows returned do not depend on the match map\<close>

lemma cellMatch_fst:
  "fst (cellMatch String fv co fn inc row cell m) = cellMatches String fv co fn inc row cell"
  by (simp add: cellMatches_def cellMatch_def Let_def split: option.splits BodyCell.splits)


lemma cellMatch_not_evaluable:
  "\<not> evaluable co inc row cell \<Longrightarrow> cellMatch String fv co fn inc row cell m = (False, m)"
  by (auto simp: evaluable_def cellMatch_def Let_def split: option.splits BodyCell.splits)

lemma cellMatches_evaluable:
  "cellMatches String fv co fn inc row cell \<Longrightarrow> evaluable co inc row cell"
  by (cases "evaluable co inc row cell") (simp_all add: cellMatches_def cellMatch_not_evaluable)

lemma rowCellMatches_fst:
  "fst (rowCellMatches String fv co fn inc row cs m) = map (cellMatches String fv co fn inc row) cs"
proof (induction cs arbitrary: m)
  case Nil
  show ?case by simp
next
  case (Cons c cs)
  have "fst (cellMatch String fv co fn inc row c m) = cellMatches String fv co fn inc row c"
    by (rule cellMatch_fst)
  with Cons.IH show ?case
    by (simp add: split_beta Let_def)
qed

lemma ownMatch_iff:
  "ownMatch String fv co fn inc row \<longleftrightarrow>
     (\<exists>c \<in> set (map snd (cellForId row)). cellMatches String fv co fn inc row c)"
  by (auto simp: ownMatch_def rowCellMatches_fst)

lemma filterRow_fst:
  "fst (filterRow String fv co fn inc row m) =
     ((case subRows row of None \<Rightarrow> 0 | Some rs \<Rightarrow> length rs) \<noteq> 0 \<or> ownMatch String fv co fn inc row)"
  by (simp add: filterRow_def ownMatch_def rowCellMatches_fst split_beta)

lemma filterRows_fst:
  "fst (filterRows String fv co fn inc rows m) =
     filter (\<lambda>r. fst (filterRow String fv co fn inc r Map.empty)) rows"
proof (induction rows arbitrary: m)
  case Nil
  show ?case by simp
next
  case (Cons r rows)
  have "fst (filterRow String fv co fn inc r m) = fst (filterRow String fv co fn inc r Map.empty)"
    by (simp only: filterRow_fst)
  with Cons.IH show ?case
    by (simp add: split_beta Let_def)
qed

lemma mapRows_fst_if:
  "(\<And>r m. r \<in> set rows \<Longrightarrow> fst (mapRow String fv co fn inc r m) = mappedRow String fv co fn inc r)
   \<Longrightarrow> fst (mapRows String fv co fn inc rows m) = map (mappedRow String fv co fn inc) rows"
  by (induction rows arbitrary: m) (simp_all add: split_beta Let_def)

lemma mapRow_fst:
  "fst (mapRow String fv co fn inc row m) = mappedRow String fv co fn inc row"
proof (induction row arbitrary: m)
  case (BodyRow rid cfi cs sub)
  show ?case
  proof (cases sub)
    case None
    then show ?thesis by (simp add: mappedRow_def)
  next
    case (Some srs)
    have members: "\<And>r m. r \<in> set srs \<Longrightarrow>
        fst (mapRow String fv co fn inc r m) = mappedRow String fv co fn inc r"
      using BodyRow.IH Some by simp
    have "\<And>m. fst (mapRows String fv co fn inc srs m) = map (mappedRow String fv co fn inc) srs"
      by (rule mapRows_fst_if) (rule members)
    then have "\<And>m. fst (getFilteredRows String fv co fn inc srs m)
        = filter (\<lambda>r. fst (filterRow String fv co fn inc r Map.empty))
            (map (mappedRow String fv co fn inc) srs)"
      by (simp add: split_beta filterRows_fst)
    then show ?thesis
      using Some by (simp add: mappedRow_def split_beta del: getFilteredRows.simps)
  qed
qed

lemma mapRows_fst:
  "fst (mapRows String fv co fn inc rows m) = map (mappedRow String fv co fn inc) rows"
  by (rule mapRows_fst_if) (rule mapRow_fst)

lemma getFilteredRows_fst:
  "fst (getFilteredRows String fv co fn inc rows m) =
     filter (\<lambda>r. fst (filterRow String fv co fn inc r Map.empty))
       (map (mappedRow String fv co fn inc) rows)"
  by (simp add: split_beta filterRows_fst mapRows_fst)

lemma mappedRow_None [simp]:
  "mappedRow String fv co fn inc (BodyRow rid cfi cs None) = BodyRow rid cfi cs None"
  by (simp add: mappedRow_def)

lemma mappedRow_Some [simp]:
  "mappedRow String fv co fn inc (BodyRow rid cfi cs (Some srs)) =
     BodyRow rid cfi cs (Some (fst (getFilteredRows String fv co fn inc srs Map.empty)))"
  by (simp add: mappedRow_def split_beta getCloned_def del: getFilteredRows.simps)

lemma mappedRow_fields [simp]:
  "row_id (mappedRow String fv co fn inc r) = row_id r"
  "cellForId (mappedRow String fv co fn inc r) = cellForId r"
  "cells (mappedRow String fv co fn inc r) = cells r"
  by (cases r; cases "subRows r"; simp)+

lemma cellMatches_cong_row:
  "cells r' = cells r \<Longrightarrow>
   cellMatches String fv co fn inc r' c = cellMatches String fv co fn inc r c"
  by (simp add: cellMatches_def cellMatch_def Let_def)

lemma ownMatch_cong_row:
  "cells r' = cells r \<Longrightarrow> cellForId r' = cellForId r \<Longrightarrow>
   ownMatch String fv co fn inc r' = ownMatch String fv co fn inc r"
  by (simp add: ownMatch_iff cellMatches_cong_row [of r' r])

lemma ownMatch_mappedRow [simp]:
  "ownMatch String fv co fn inc (mappedRow String fv' co' fn' inc' r) = ownMatch String fv co fn inc r"
  by (rule ownMatch_cong_row) simp_all

lemma ownMatch_subRows [simp]:
  "ownMatch String fv co fn inc (BodyRow rid cfi cs (Some srs)) =
     ownMatch String fv co fn inc (BodyRow rid cfi cs None)"
  by (rule ownMatch_cong_row) simp_all

subsection \<open>Which rows are kept\<close>

lemma in_getFilteredRows_iff:
  "x \<in> set (fst (getFilteredRows String fv co fn inc rows m)) \<longleftrightarrow>
     x \<in> mappedRow String fv co fn inc ` set rows \<and> fst (filterRow String fv co fn inc x Map.empty)"
  by (auto simp: getFilteredRows_fst simp del: getFilteredRows.simps)

lemma in_descendants_Some:
  "d \<in> set (descendants (BodyRow rid cfi cs (Some srs))) \<longleftrightarrow>
     (\<exists>q \<in> set srs. d = q \<or> d \<in> set (descendants q))"
  by auto

lemma in_allRows_iff:
  "d \<in> set (allRows rows) \<longleftrightarrow> (\<exists>q \<in> set rows. d = q \<or> d \<in> set (descendants q))"
  by (auto simp: allRows_def)

lemma filterRow_leaf:
  "fst (filterRow String fv co fn inc (BodyRow rid cfi cs None) m) =
     ownMatch String fv co fn inc (BodyRow rid cfi cs None)"
  by (simp add: filterRow_fst)

lemma filterRow_parent:
  "fst (filterRow String fv co fn inc (BodyRow rid cfi cs (Some srs)) m) =
     (srs \<noteq> [] \<or> ownMatch String fv co fn inc (BodyRow rid cfi cs (Some srs)))"
  by (simp add: filterRow_fst)

lemma kept_if_match_below:
  "ownMatch String fv co fn inc r \<or> (\<exists>d \<in> set (descendants r). ownMatch String fv co fn inc d)
   \<Longrightarrow> fst (filterRow String fv co fn inc (mappedRow String fv co fn inc r) Map.empty)"
proof (induction r)
  case (BodyRow rid cfi cs sub)
  let ?r = "BodyRow rid cfi cs sub"
  show ?case
  proof (cases "ownMatch String fv co fn inc ?r")
    case True
    then show ?thesis by (simp add: filterRow_fst)
  next
    case False
    with BodyRow.prems obtain d where d: "d \<in> set (descendants ?r)"
      and dm: "ownMatch String fv co fn inc d"
      by blast
    from d obtain srs where sub: "sub = Some srs"
      by (cases sub) auto
    from d sub obtain q where q: "q \<in> set srs" and dq: "d = q \<or> d \<in> set (descendants q)"
      by (auto simp only: in_descendants_Some)
    from dq dm have "ownMatch String fv co fn inc q
        \<or> (\<exists>d \<in> set (descendants q). ownMatch String fv co fn inc d)"
      by blast
    with q sub have "fst (filterRow String fv co fn inc (mappedRow String fv co fn inc q) Map.empty)"
      using BodyRow.IH [of srs q] by simp
    with q have "mappedRow String fv co fn inc q
        \<in> set (fst (getFilteredRows String fv co fn inc srs Map.empty))"
      by (simp only: in_getFilteredRows_iff) blast
    then have "fst (getFilteredRows String fv co fn inc srs Map.empty) \<noteq> []"
      by (metis empty_iff empty_set)
    with sub show ?thesis
      by (simp add: filterRow_parent del: getFilteredRows.simps)
  qed
qed

text \<open>A row is good when it matches or has a row below it that matches.\<close>

lemma kept_rows_good:
  "(\<forall>q \<in> set (descendants (mappedRow String fv co fn inc r)).
      ownMatch String fv co fn inc q \<or> (\<exists>d \<in> set (descendants q). ownMatch String fv co fn inc d))
   \<and> (fst (filterRow String fv co fn inc (mappedRow String fv co fn inc r) Map.empty) \<longrightarrow>
        ownMatch String fv co fn inc r
        \<or> (\<exists>d \<in> set (descendants (mappedRow String fv co fn inc r)). ownMatch String fv co fn inc d))"
proof (induction r)
  case (BodyRow rid cfi cs sub)
  show ?case
  proof (cases sub)
    case None
    then show ?thesis by (simp add: filterRow_leaf)
  next
    case (Some srs)
    let ?good = "\<lambda>q. ownMatch String fv co fn inc q
                    \<or> (\<exists>d \<in> set (descendants q). ownMatch String fv co fn inc d)"
    let ?kept = "fst (getFilteredRows String fv co fn inc srs Map.empty)"
    have kept: "\<And>x. x \<in> set ?kept \<Longrightarrow> ?good x \<and> (\<forall>q \<in> set (descendants x). ?good q)"
    proof -
      fix x assume "x \<in> set ?kept"
      then obtain y where y: "y \<in> set srs" and x: "x = mappedRow String fv co fn inc y"
        and k: "fst (filterRow String fv co fn inc x Map.empty)"
        by (auto simp only: in_getFilteredRows_iff)
      from BodyRow.IH [of srs y] y Some x k
      show "?good x \<and> (\<forall>q \<in> set (descendants x). ?good q)"
        by simp
    qed
    have below: "\<forall>q \<in> set (descendants (BodyRow rid cfi cs (Some ?kept))). ?good q"
    proof
      fix q assume "q \<in> set (descendants (BodyRow rid cfi cs (Some ?kept)))"
      then obtain x where "x \<in> set ?kept" and "q = x \<or> q \<in> set (descendants x)"
        by (simp only: in_descendants_Some) blast
      with kept [of x] show "?good q" by blast
    qed
    have self: "?kept \<noteq> [] \<Longrightarrow>
        \<exists>d \<in> set (descendants (BodyRow rid cfi cs (Some ?kept))). ownMatch String fv co fn inc d"
    proof -
      assume "?kept \<noteq> []"
      then obtain x where x: "x \<in> set ?kept"
        by (cases ?kept) auto
      with kept have "?good x" by blast
      then obtain d where dm: "ownMatch String fv co fn inc d"
        and "d = x \<or> d \<in> set (descendants x)"
        by blast
      with x have "d \<in> set (descendants (BodyRow rid cfi cs (Some ?kept)))"
        by (simp only: in_descendants_Some) blast
      with dm show ?thesis by blast
    qed
    from below self Some show ?thesis
      by (auto simp add: filterRow_parent simp del: getFilteredRows.simps)
  qed
qed

subsection \<open>What the match map records\<close>


















subsection \<open>The empty filter value\<close>

lemma cellMatches_empty_filter:
  "evaluable co inc r c \<Longrightarrow> cellMatches String [] co textPrefixFilter inc r c"
  by (auto simp: evaluable_def cellMatches_def cellMatch_def textPrefixFilter_def Let_def
           split: option.splits BodyCell.splits)

lemma identity_row:
  "(\<forall>q \<in> set (r # descendants r).
      subRows q = None \<or> subRows q = Some [] \<longrightarrow>
      (\<exists>c \<in> set (map snd (cellForId q)). evaluable co inc q c))
   \<Longrightarrow> mappedRow String [] co textPrefixFilter inc r = r
       \<and> fst (filterRow String [] co textPrefixFilter inc r Map.empty)"
proof (induction r)
  case (BodyRow rid cfi cs sub)
  let ?r = "BodyRow rid cfi cs sub"
  have own: "subRows ?r = None \<or> subRows ?r = Some [] \<Longrightarrow>
      ownMatch String [] co textPrefixFilter inc ?r"
  proof -
    assume "subRows ?r = None \<or> subRows ?r = Some []"
    with BodyRow.prems obtain c where "c \<in> set (map snd (cellForId ?r))"
      and "evaluable co inc ?r c"
      by auto
    then show ?thesis
      by (simp only: ownMatch_iff) (blast intro: cellMatches_empty_filter)
  qed
  show ?case
  proof (cases sub)
    case None
    with own show ?thesis by (simp add: filterRow_leaf)
  next
    case (Some srs)
    have each: "\<And>x. x \<in> set srs \<Longrightarrow>
        mappedRow String [] co textPrefixFilter inc x = x
        \<and> fst (filterRow String [] co textPrefixFilter inc x Map.empty)"
    proof -
      fix x assume x: "x \<in> set srs"
      have "\<forall>q \<in> set (x # descendants x).
          subRows q = None \<or> subRows q = Some [] \<longrightarrow>
          (\<exists>c \<in> set (map snd (cellForId q)). evaluable co inc q c)"
      proof
        fix q assume "q \<in> set (x # descendants x)"
        with x Some have "q \<in> set (descendants ?r)"
          by (simp only: in_descendants_Some) auto
        with BodyRow.prems show "subRows q = None \<or> subRows q = Some [] \<longrightarrow>
          (\<exists>c \<in> set (map snd (cellForId q)). evaluable co inc q c)"
          by simp
      qed
      with BodyRow.IH [of srs x] x Some
      show "mappedRow String [] co textPrefixFilter inc x = x
        \<and> fst (filterRow String [] co textPrefixFilter inc x Map.empty)"
        by simp
    qed
    have "map (mappedRow String [] co textPrefixFilter inc) srs = srs"
      using each by (simp add: map_idI)
    moreover have "filter (\<lambda>r. fst (filterRow String [] co textPrefixFilter inc r Map.empty)) srs = srs"
      using each by (simp add: filter_id_conv)
    ultimately have same: "fst (getFilteredRows String [] co textPrefixFilter inc srs Map.empty) = srs"
      by (simp only: getFilteredRows_fst)
    show ?thesis
    proof (cases "srs = []")
      case True
      with own Some same show ?thesis
        by (simp add: filterRow_parent del: getFilteredRows.simps)
    next
      case False
      with Some same show ?thesis
        by (simp add: filterRow_parent del: getFilteredRows.simps)
    qed
  qed
qed

text \<open>
  C2. With the empty filter value and the default predicate, a row list in which the row
  \<open>0\<close> has its \<open>name\<close> column hidden and shows only a display cell comes back empty: the
  row has no cell that is evaluated, so none that matches.
\<close>

theorem empty_filter_drops_row:
  "fst (getFilteredRows (\<lambda>v. v) [] noOptions textPrefixFilter False [actionsOnlyRow] Map.empty) = []
   \<and> fst (getFilteredRows (\<lambda>v. v) [] noOptions textPrefixFilter False [actionsOnlyRow] Map.empty)
       \<noteq> [actionsOnlyRow]"
  by (simp add: actionsOnlyRow_def nameCell_def noOptions_def cellMatch_def filterRow_def Let_def)

text \<open>
  C2, amended. With the empty filter value and the default predicate, the rows come back
  unchanged (the same rows in the same order with the same sub-rows) when every row, at
  any depth, that has no sub-rows has at least one evaluable cell.
\<close>

theorem empty_filter_identity:
  assumes "\<forall>q \<in> set (allRows rows).
      subRows q = None \<or> subRows q = Some [] \<longrightarrow>
      (\<exists>c \<in> set (map snd (cellForId q)). evaluable co inc q c)"
  shows "fst (getFilteredRows String [] co textPrefixFilter inc rows m) = rows"
proof -
  have each: "\<And>x. x \<in> set rows \<Longrightarrow>
      mappedRow String [] co textPrefixFilter inc x = x
      \<and> fst (filterRow String [] co textPrefixFilter inc x Map.empty)"
  proof -
    fix x assume x: "x \<in> set rows"
    have "\<forall>q \<in> set (x # descendants x).
        subRows q = None \<or> subRows q = Some [] \<longrightarrow>
        (\<exists>c \<in> set (map snd (cellForId q)). evaluable co inc q c)"
    proof
      fix q assume "q \<in> set (x # descendants x)"
      with x have "q \<in> set (allRows rows)"
        by (simp only: in_allRows_iff) auto
      with assms show "subRows q = None \<or> subRows q = Some [] \<longrightarrow>
        (\<exists>c \<in> set (map snd (cellForId q)). evaluable co inc q c)"
        by simp
    qed
    then show "mappedRow String [] co textPrefixFilter inc x = x
      \<and> fst (filterRow String [] co textPrefixFilter inc x Map.empty)"
      by (rule identity_row)
  qed
  have "map (mappedRow String [] co textPrefixFilter inc) rows = rows"
    using each by (simp add: map_idI)
  moreover have "filter (\<lambda>r. fst (filterRow String [] co textPrefixFilter inc r Map.empty)) rows = rows"
    using each by (simp add: filter_id_conv)
  ultimately show ?thesis
    by (simp only: getFilteredRows_fst)
qed

theorem empty_filter_identity_witness:
  "allRows [groupRow] = [groupRow, alice, bob]
   \<and> evaluable noOptions False alice (nameCell ''0'' ''Alice'')
   \<and> evaluable noOptions False bob (nameCell ''1'' ''Bob'')
   \<and> fst (getFilteredRows (\<lambda>v. v) [] noOptions textPrefixFilter False [groupRow] Map.empty)
       = [groupRow]"
proof -
  have rows: "allRows [groupRow] = [groupRow, alice, bob]"
    by (simp add: allRows_def groupRow_def alice_def bob_def leafRow_def)
  have a: "evaluable noOptions False alice (nameCell ''0'' ''Alice'')"
    and b: "evaluable noOptions False bob (nameCell ''1'' ''Bob'')"
    by (simp_all add: evaluable_def noOptions_def alice_def bob_def leafRow_def nameCell_def)
  have "\<forall>q \<in> set (allRows [groupRow]).
      subRows q = None \<or> subRows q = Some [] \<longrightarrow>
      (\<exists>c \<in> set (map snd (cellForId q)). evaluable noOptions False q c)"
    using a b by (simp add: rows) (simp add: groupRow_def alice_def bob_def leafRow_def)
  from empty_filter_identity [OF this, of "\<lambda>v. v" Map.empty] rows a b
  show ?thesis by simp
qed

subsection \<open>Match-map completeness\<close>




subsection \<open>Ancestor bubbling\<close>

text \<open>
  C4. A row with a row below it, at any depth, that matches by its own cells is kept in
  the filtered output, whether or not its own cells match: the output holds its clone
  \<open>mappedRow\<close>, the row with its sub-rows filtered. Every row below that clone matches by
  its own cells or has a row below it that does.
\<close>

theorem ancestor_bubbling:
  assumes "r \<in> set rows"
    and "\<exists>d \<in> set (descendants r). ownMatch String fv co fn inc d"
  shows "mappedRow String fv co fn inc r \<in> set (fst (getFilteredRows String fv co fn inc rows m))
     \<and> (\<forall>q \<in> set (descendants (mappedRow String fv co fn inc r)).
           ownMatch String fv co fn inc q
           \<or> (\<exists>d \<in> set (descendants q). ownMatch String fv co fn inc d))"
proof
  from assms(2) have "fst (filterRow String fv co fn inc (mappedRow String fv co fn inc r) Map.empty)"
    by (simp add: kept_if_match_below)
  with assms(1) show "mappedRow String fv co fn inc r
      \<in> set (fst (getFilteredRows String fv co fn inc rows m))"
    by (simp only: in_getFilteredRows_iff) blast
next
  show "\<forall>q \<in> set (descendants (mappedRow String fv co fn inc r)).
           ownMatch String fv co fn inc q
           \<or> (\<exists>d \<in> set (descendants q). ownMatch String fv co fn inc d)"
    using kept_rows_good [of String fv co fn inc r] by blast
qed

theorem ancestor_bubbling_witness:
  "groupRow \<in> set [groupRow]
   \<and> alice \<in> set (descendants groupRow)
   \<and> ownMatch (\<lambda>v. v) ''al'' noOptions textPrefixFilter False alice
   \<and> \<not> ownMatch (\<lambda>v. v) ''al'' noOptions textPrefixFilter False groupRow
   \<and> mappedRow (\<lambda>v. v) ''al'' noOptions textPrefixFilter False groupRow
       \<in> set (fst (getFilteredRows (\<lambda>v. v) ''al'' noOptions textPrefixFilter False [groupRow] Map.empty))
   \<and> descendants (mappedRow (\<lambda>v. v) ''al'' noOptions textPrefixFilter False groupRow) = [alice]"
proof -
  have 1: "groupRow \<in> set [groupRow]"
    by simp
  have 2: "alice \<in> set (descendants groupRow)"
    by (simp add: groupRow_def)
  have 3: "ownMatch (\<lambda>v. v) ''al'' noOptions textPrefixFilter False alice"
    by (simp add: ownMatch_def alice_def leafRow_def nameCell_def noOptions_def cellMatch_def
          textPrefixFilter_def startsWith_def toLowerCase_def Let_def)
  have 4: "\<not> ownMatch (\<lambda>v. v) ''al'' noOptions textPrefixFilter False groupRow"
    by (simp add: ownMatch_def groupRow_def nameCell_def noOptions_def cellMatch_def
          textPrefixFilter_def startsWith_def toLowerCase_def Let_def)
  have 5: "descendants (mappedRow (\<lambda>v. v) ''al'' noOptions textPrefixFilter False groupRow) = [alice]"
    by (simp add: groupRow_def alice_def bob_def leafRow_def nameCell_def noOptions_def
          cellMatch_def filterRow_def textPrefixFilter_def startsWith_def toLowerCase_def Let_def)
  from 2 3 have "\<exists>d \<in> set (descendants groupRow).
      ownMatch (\<lambda>v. v) ''al'' noOptions textPrefixFilter False d"
    by blast
  from ancestor_bubbling [OF 1 this, of Map.empty] 1 2 3 4 5
  show ?thesis by simp
qed

subsection \<open>Hidden columns\<close>

lemma cellMatches_visible:
  "cellMatches String fv co fn False r c \<Longrightarrow>
   cellMatches String fv co fn True r c \<and> \<not> isHidden r c"
  by (auto simp: cellMatches_def cellMatch_def isHidden_def Let_def
           split: option.splits if_splits BodyCell.splits)

text \<open>
  A cell is called matching when it matches once hidden columns are included. C8, as
  stated for every row, fails for a parent: with the filter value \<open>al\<close> and
  \<open>includeHiddenColumns\<close> false, the row \<open>h\<close>, whose only matching cell \<open>alpha\<close> is on the
  hidden column \<open>code\<close>, is kept for its sub-row Alice.
\<close>

theorem hidden_match_parent_kept:
  "cellMatches (\<lambda>v. v) ''al'' noOptions textPrefixFilter True hiddenCodeParent (codeCell ''h'' ''alpha'')
   \<and> isHidden hiddenCodeParent (codeCell ''h'' ''alpha'')
   \<and> \<not> cellMatches (\<lambda>v. v) ''al'' noOptions textPrefixFilter True hiddenCodeParent (nameCell ''h'' ''Bob'')
   \<and> map snd (cellForId hiddenCodeParent) = [nameCell ''h'' ''Bob'', codeCell ''h'' ''alpha'']
   \<and> fst (getFilteredRows (\<lambda>v. v) ''al'' noOptions textPrefixFilter False [hiddenCodeParent] Map.empty)
       = [hiddenCodeParent]"
  by (simp add: hiddenCodeParent_def alice_def leafRow_def nameCell_def codeCell_def noOptions_def
        cellMatches_def isHidden_def cellMatch_def filterRow_def getCloned_def
        textPrefixFilter_def startsWith_def toLowerCase_def Let_def)

text \<open>
  C8, amended. For a row whose only matching cells are on columns absent from its visible
  cells: with \<open>includeHiddenColumns\<close> true the row is included; with the flag false the
  row is excluded when it has no sub-row left after the filtering of its sub-rows.
\<close>

theorem hidden_column_exclusion:
  assumes "r \<in> set rows"
    and "\<exists>c \<in> set (map snd (cellForId r)). cellMatches String fv co fn True r c"
    and "\<forall>c \<in> set (map snd (cellForId r)). cellMatches String fv co fn True r c \<longrightarrow> isHidden r c"
  shows "mappedRow String fv co fn True r \<in> set (fst (getFilteredRows String fv co fn True rows m))
     \<and> (noSubRowsLeft String fv co fn False r \<longrightarrow>
          mappedRow String fv co fn False r
            \<notin> set (fst (getFilteredRows String fv co fn False rows m)))"
proof (intro conjI impI)
  from assms(2) have "ownMatch String fv co fn True r"
    by (simp only: ownMatch_iff)
  then have "fst (filterRow String fv co fn True (mappedRow String fv co fn True r) Map.empty)"
    by (simp add: kept_if_match_below)
  with assms(1) show "mappedRow String fv co fn True r
      \<in> set (fst (getFilteredRows String fv co fn True rows m))"
    by (simp only: in_getFilteredRows_iff) blast
next
  assume left: "noSubRowsLeft String fv co fn False r"
  have no: "\<not> ownMatch String fv co fn False r"
  proof
    assume "ownMatch String fv co fn False r"
    then obtain c where c: "c \<in> set (map snd (cellForId r))"
      and "cellMatches String fv co fn False r c"
      by (auto simp only: ownMatch_iff)
    then have "cellMatches String fv co fn True r c" and "\<not> isHidden r c"
      by (simp_all add: cellMatches_visible)
    with assms(3) c show False by blast
  qed
  show "mappedRow String fv co fn False r \<notin> set (fst (getFilteredRows String fv co fn False rows m))"
  proof
    assume "mappedRow String fv co fn False r
        \<in> set (fst (getFilteredRows String fv co fn False rows m))"
    then have "fst (filterRow String fv co fn False (mappedRow String fv co fn False r) Map.empty)"
      by (simp only: in_getFilteredRows_iff)
    with left no show False
      by (auto simp: filterRow_fst noSubRowsLeft_def split: option.splits)
  qed
qed

theorem hidden_column_exclusion_witness:
  "hiddenCodeRow \<in> set [alice, hiddenCodeRow]
   \<and> cellMatches (\<lambda>v. v) ''al'' noOptions textPrefixFilter True hiddenCodeRow (codeCell ''h'' ''alpha'')
   \<and> isHidden hiddenCodeRow (codeCell ''h'' ''alpha'')
   \<and> \<not> cellMatches (\<lambda>v. v) ''al'' noOptions textPrefixFilter True hiddenCodeRow (nameCell ''h'' ''Bob'')
   \<and> noSubRowsLeft (\<lambda>v. v) ''al'' noOptions textPrefixFilter False hiddenCodeRow
   \<and> hiddenCodeRow
       \<in> set (fst (getFilteredRows (\<lambda>v. v) ''al'' noOptions textPrefixFilter True [alice, hiddenCodeRow] Map.empty))
   \<and> hiddenCodeRow
       \<notin> set (fst (getFilteredRows (\<lambda>v. v) ''al'' noOptions textPrefixFilter False [alice, hiddenCodeRow] Map.empty))"
proof -
  have 1: "hiddenCodeRow \<in> set [alice, hiddenCodeRow]"
    by simp
  have vals: "map snd (cellForId hiddenCodeRow) = [nameCell ''h'' ''Bob'', codeCell ''h'' ''alpha'']"
    by (simp add: hiddenCodeRow_def)
  have 2: "cellMatches (\<lambda>v. v) ''al'' noOptions textPrefixFilter True hiddenCodeRow (codeCell ''h'' ''alpha'')"
    and 3: "isHidden hiddenCodeRow (codeCell ''h'' ''alpha'')"
    and 4: "\<not> cellMatches (\<lambda>v. v) ''al'' noOptions textPrefixFilter True hiddenCodeRow (nameCell ''h'' ''Bob'')"
    by (simp_all add: hiddenCodeRow_def nameCell_def codeCell_def noOptions_def cellMatches_def
          isHidden_def cellMatch_def textPrefixFilter_def startsWith_def toLowerCase_def Let_def)
  have 5: "noSubRowsLeft (\<lambda>v. v) ''al'' noOptions textPrefixFilter False hiddenCodeRow"
    by (simp add: noSubRowsLeft_def hiddenCodeRow_def)
  have same: "mappedRow (\<lambda>v. v) ''al'' noOptions textPrefixFilter True hiddenCodeRow = hiddenCodeRow"
    "mappedRow (\<lambda>v. v) ''al'' noOptions textPrefixFilter False hiddenCodeRow = hiddenCodeRow"
    by (simp_all add: hiddenCodeRow_def)
  have ex: "\<exists>c \<in> set (map snd (cellForId hiddenCodeRow)).
      cellMatches (\<lambda>v. v) ''al'' noOptions textPrefixFilter True hiddenCodeRow c"
    using 2 by (simp add: vals)
  have all: "\<forall>c \<in> set (map snd (cellForId hiddenCodeRow)).
      cellMatches (\<lambda>v. v) ''al'' noOptions textPrefixFilter True hiddenCodeRow c
      \<longrightarrow> isHidden hiddenCodeRow c"
    using 3 4 by (simp add: vals)
  from hidden_column_exclusion [OF 1 ex all, of Map.empty] 1 2 3 4 5
  show ?thesis by (simp only: same) simp
qed

subsection \<open>The \<open>matches\<close> prop\<close>

text \<open>
  C9. The \<open>matches\<close> prop of a body cell is true exactly when the filter value is not
  empty and the match map holds \<open>true\<close> under the cell's composite key, an absent entry
  counting as false; with the empty filter value it is false for every cell.
\<close>

theorem matches_prop_iff:
  "(matches_prop fv m cell \<longleftrightarrow> fv \<noteq> [] \<and> m (rowColId cell) = Some True)
   \<and> matches_prop [] m cell = False"
  by (simp add: matches_prop_def split: option.splits)

theorem matches_prop_iff_witness:
  "matches_prop ''al''
     (tableCellMatches (deriveRows (\<lambda>v. v) noOptions textPrefixFilter False [alice, bob] (filterState ''al'')))
     (nameCell ''0'' ''Alice'')
   \<and> \<not> matches_prop ''al''
     (tableCellMatches (deriveRows (\<lambda>v. v) noOptions textPrefixFilter False [alice, bob] (filterState ''al'')))
     (nameCell ''1'' ''Bob'')
   \<and> \<not> matches_prop []
     (tableCellMatches (deriveRows (\<lambda>v. v) noOptions textPrefixFilter False [alice, bob] (filterState [])))
     (nameCell ''0'' ''Alice'')"
proof -
  let ?m = "tableCellMatches
    (deriveRows (\<lambda>v. v) noOptions textPrefixFilter False [alice, bob] (filterState ''al''))"
  have a: "?m (rowColId (nameCell ''0'' ''Alice'')) = Some True"
    and b: "?m (rowColId (nameCell ''1'' ''Bob'')) = Some False"
    by (simp_all add: alice_def bob_def leafRow_def nameCell_def noOptions_def deriveRows_def
          filterState_def cellMatch_def filterRow_def textPrefixFilter_def startsWith_def
          toLowerCase_def Let_def)
  from matches_prop_iff [of "''al''" ?m "nameCell ''0'' ''Alice''"]
    matches_prop_iff [of "''al''" ?m "nameCell ''1'' ''Bob''"]
    matches_prop_iff [of "[]"
      "tableCellMatches
         (deriveRows (\<lambda>v. v) noOptions textPrefixFilter False [alice, bob] (filterState []))"
      "nameCell ''0'' ''Alice''"]
    a b
  show ?thesis by simp
qed

subsection \<open>A parent whose sub-rows are all removed\<close>

text \<open>
  C10. A row with a sub-row list of which the filter removes every row comes out with
  the empty list of sub-rows, and is kept exactly when one of its own cells matches: the
  callback of \<open>.filter\<close> decides it as it decides the same row without sub-rows.
\<close>

theorem emptied_parent_own_cells:
  assumes "r \<in> set rows"
    and "subRows r = Some srs"
    and "fst (getFilteredRows String fv co fn inc srs m0) = []"
  shows "mappedRow String fv co fn inc r = BodyRow (row_id r) (cellForId r) (cells r) (Some [])
     \<and> (mappedRow String fv co fn inc r \<in> set (fst (getFilteredRows String fv co fn inc rows m))
          \<longleftrightarrow> ownMatch String fv co fn inc r)
     \<and> fst (filterRow String fv co fn inc (mappedRow String fv co fn inc r) m)
         = fst (filterRow String fv co fn inc (BodyRow (row_id r) (cellForId r) (cells r) None) m)"
proof -
  from assms(3) have none: "fst (getFilteredRows String fv co fn inc srs Map.empty) = []"
    by (simp only: getFilteredRows_fst)
  from assms(2) have r: "r = BodyRow (row_id r) (cellForId r) (cells r) (Some srs)"
    by (cases r) simp
  have mapped: "mappedRow String fv co fn inc r
      = BodyRow (row_id r) (cellForId r) (cells r) (Some [])"
    by (subst r) (simp add: none del: getFilteredRows.simps)
  have own: "ownMatch String fv co fn inc (BodyRow (row_id r) (cellForId r) (cells r) None)
      = ownMatch String fv co fn inc r"
    by (rule ownMatch_cong_row) simp_all
  have keep: "\<And>m'. fst (filterRow String fv co fn inc (mappedRow String fv co fn inc r) m')
      = ownMatch String fv co fn inc r"
    by (simp add: mapped filterRow_parent own)
  have leaf: "fst (filterRow String fv co fn inc (BodyRow (row_id r) (cellForId r) (cells r) None) m)
      = ownMatch String fv co fn inc r"
    by (simp add: filterRow_leaf own)
  have "mappedRow String fv co fn inc r \<in> set (fst (getFilteredRows String fv co fn inc rows m))
      \<longleftrightarrow> ownMatch String fv co fn inc r"
    using assms(1) by (simp only: in_getFilteredRows_iff keep) blast
  with mapped keep leaf show ?thesis
    by simp
qed

theorem emptied_parent_own_cells_witness:
  "alanOverBob \<in> set [groupRow, alanOverBob]
   \<and> subRows alanOverBob = Some [bob]
   \<and> fst (getFilteredRows (\<lambda>v. v) ''al'' noOptions textPrefixFilter False [bob] Map.empty) = []
   \<and> ownMatch (\<lambda>v. v) ''al'' noOptions textPrefixFilter False alanOverBob
   \<and> BodyRow ''a'' [(''name'', nameCell ''a'' ''Alan'')] [nameCell ''a'' ''Alan''] (Some [])
       \<in> set (fst (getFilteredRows (\<lambda>v. v) ''al'' noOptions textPrefixFilter False
                     [groupRow, alanOverBob] Map.empty))"
proof -
  have 1: "alanOverBob \<in> set [groupRow, alanOverBob]"
    by simp
  have 2: "subRows alanOverBob = Some [bob]"
    by (simp add: alanOverBob_def)
  have 3: "fst (getFilteredRows (\<lambda>v. v) ''al'' noOptions textPrefixFilter False [bob] Map.empty) = []"
    by (simp add: bob_def leafRow_def nameCell_def noOptions_def cellMatch_def filterRow_def
          textPrefixFilter_def startsWith_def toLowerCase_def Let_def)
  have 4: "ownMatch (\<lambda>v. v) ''al'' noOptions textPrefixFilter False alanOverBob"
    by (simp add: ownMatch_def alanOverBob_def nameCell_def noOptions_def cellMatch_def
          textPrefixFilter_def startsWith_def toLowerCase_def Let_def)
  have f: "row_id alanOverBob = ''a''"
    "cellForId alanOverBob = [(''name'', nameCell ''a'' ''Alan'')]"
    "cells alanOverBob = [nameCell ''a'' ''Alan'']"
    by (simp_all add: alanOverBob_def)
  note t = emptied_parent_own_cells [OF 1 2 3, of Map.empty]
  from t have eq: "mappedRow (\<lambda>v. v) ''al'' noOptions textPrefixFilter False alanOverBob
      = BodyRow ''a'' [(''name'', nameCell ''a'' ''Alan'')] [nameCell ''a'' ''Alan''] (Some [])"
    by (simp only: f)
  from t 4 have "mappedRow (\<lambda>v. v) ''al'' noOptions textPrefixFilter False alanOverBob
      \<in> set (fst (getFilteredRows (\<lambda>v. v) ''al'' noOptions textPrefixFilter False
                    [groupRow, alanOverBob] Map.empty))"
    by blast
  then have "BodyRow ''a'' [(''name'', nameCell ''a'' ''Alan'')] [nameCell ''a'' ''Alan''] (Some [])
      \<in> set (fst (getFilteredRows (\<lambda>v. v) ''al'' noOptions textPrefixFilter False
                    [groupRow, alanOverBob] Map.empty))"
    by (simp only: eq)
  with 1 2 3 4 show ?thesis by blast
qed

end
